theory Spec2Isabelle
  imports Main
begin

section \<open>The client state read by the line-readings actions\<close>

text \<open>
  The actions of \<^verbatim>\<open>lineReadings.ts\<close> read two slices of the Redux state:
  \<^verbatim>\<open>state.readings.line.byMeterID\<close> / \<^verbatim>\<open>byGroupID\<close> (objects indexed by the numeric ID and
  then by the string form of the time interval) and \<^verbatim>\<open>state.graph.selectedMeters\<close> /
  \<^verbatim>\<open>selectedGroups\<close> (arrays of IDs). An object is a partial map: a missing property reads
  as \<^verbatim>\<open>undefined\<close>, which is \<open>None\<close> here. IDs are integers. The class
  \<^verbatim>\<open>TimeInterval\<close> is imported from another module; it is a type parameter \<open>'t\<close> and its
  \<^verbatim>\<open>toString\<close> method is a parameter of every function that calls it.
\<close>

record 'r entry =
  isFetching :: bool
  entryReadings :: "'r option"

type_synonym 'r cache = "int \<rightharpoonup> (string \<rightharpoonup> 'r entry)"

record 'r line_state =
  byMeterID :: "'r cache"
  byGroupID :: "'r cache"

record 'r readings_state =
  line :: "'r line_state"

record graph_state =
  selectedMeters :: "int list"
  selectedGroups :: "int list"

record 'r state =
  readings :: "'r readings_state"
  graph :: graph_state

section \<open>The cache-lookup predicates\<close>

definition shouldFetchGroupLineReadings ::
  "('t \<Rightarrow> string) \<Rightarrow> 'r state \<Rightarrow> int \<Rightarrow> 't \<Rightarrow> bool" where
  "shouldFetchGroupLineReadings toString state groupID timeInterval =
     (let timeIntervalIndex = toString timeInterval;
          readingsForID = byGroupID (line (readings state)) groupID
      in case readingsForID of
           None \<Rightarrow> True
         | Some forID \<Rightarrow>
             (let readingsForTimeInterval = forID timeIntervalIndex
              in case forID timeIntervalIndex of
                   None \<Rightarrow> True
                 | Some e \<Rightarrow> \<not> isFetching e))"

definition shouldFetchMeterLineReadings ::
  "('t \<Rightarrow> string) \<Rightarrow> 'r state \<Rightarrow> int \<Rightarrow> 't \<Rightarrow> bool" where
  "shouldFetchMeterLineReadings toString state meterID timeInterval =
     (let timeIntervalIndex = toString timeInterval;
          readingsForID = byMeterID (line (readings state)) meterID
      in case readingsForID of
           None \<Rightarrow> True
         | Some forID \<Rightarrow>
             (let readingsForTimeInterval = forID timeIntervalIndex
              in case forID timeIntervalIndex of
                   None \<Rightarrow> True
                 | Some e \<Rightarrow> \<not> isFetching e))"

section \<open>Notifications, network calls and the store\<close>

text \<open>
  The actions dispatched to the store. \<^verbatim>\<open>readings\<close> of a receive action is the body of
  the response, of a type \<open>'r\<close> this module does not look into; \<open>'u\<close> is the type of a
  unit descriptor.
\<close>

datatype ('t, 'r, 'u) action =
    RequestMeterLineReadings "int list" 't
  | ReceiveMeterLineReadings "int list" 't 'r
  | RequestGroupLineReadings "int list" 't
  | ReceiveGroupLineReadings "int list" 't 'r
  | RequestUnitsDetails
  | ReceiveUnitsDetails "'u list"

datatype request =
    HttpGet string "(string \<times> string) list"
  | UnitsApiDetails

text \<open>
  What an observer of one run sees, in order: an action reaching the store, a network call
  leaving, a network call coming back (\<open>True\<close> when it succeeded).
\<close>

datatype ('t, 'r, 'u) event =
    Dispatched "('t, 'r, 'u) action"
  | Issued request
  | Completed request bool

record ('t, 'r, 'u) world =
  store :: "'r state"
  trace :: "('t, 'r, 'u) event list"

type_synonym ('t, 'r, 'u) reducer = "'r state \<Rightarrow> ('t, 'r, 'u) action \<Rightarrow> 'r state"

text \<open>
  \<^verbatim>\<open>dispatch(action)\<close> of the store: the reducer (owned by the store, a parameter here)
  computes the next state, and the action is returned to the caller.
\<close>

definition dispatch ::
  "('t, 'r, 'u) reducer \<Rightarrow> ('t, 'r, 'u) action \<Rightarrow> ('t, 'r, 'u) world
     \<Rightarrow> ('t, 'r, 'u) world \<times> ('t, 'r, 'u) action" where
  "dispatch reducer a w =
     (w\<lparr>store := reducer (store w) a, trace := trace w @ [Dispatched a]\<rparr>, a)"

definition getState :: "('t, 'r, 'u) world \<Rightarrow> 'r state" where
  "getState w = store w"

subsection \<open>Promises\<close>

text \<open>
  A promise that waits for one network call: the call it waits for, and what runs when the
  call comes back. A settled promise is fulfilled with a value or rejected with a reason.
\<close>

datatype 'a settled = Fulfilled 'a | Rejected string

fun isFulfilled :: "'a settled \<Rightarrow> bool" where
  "isFulfilled (Fulfilled v) = True"
| "isFulfilled (Rejected e) = False"

record ('d, 'v, 'w) promise =
  awaits :: request
  onSettle :: "'d settled \<Rightarrow> 'w \<Rightarrow> 'w \<times> 'v settled"

text \<open>
  \<^verbatim>\<open>axios.get(url, {params})\<close>: the call leaves at once; the promise settles as the call
  does (fulfilled with the response, of which only \<^verbatim>\<open>data\<close> is read, or rejected).
\<close>

definition axios_get ::
  "string \<Rightarrow> (string \<times> string) list \<Rightarrow> ('t, 'r, 'u) world
     \<Rightarrow> ('t, 'r, 'u) world \<times> ('d, 'd, ('t, 'r, 'u) world) promise" where
  "axios_get url params w =
     (w\<lparr>trace := trace w @ [Issued (HttpGet url params)]\<rparr>,
      \<lparr>awaits = HttpGet url params,
       onSettle = (\<lambda>response w'.
         (w'\<lparr>trace := trace w' @ [Completed (HttpGet url params) (isFulfilled response)]\<rparr>,
          response))\<rparr>)"

text \<open>
  \<^verbatim>\<open>p.then(callback)\<close> with one argument: the callback runs on the value if \<^verbatim>\<open>p\<close> is
  fulfilled, and its result fulfils the new promise; a rejection of \<^verbatim>\<open>p\<close> passes through
  and the callback does not run.
\<close>

definition then_promise ::
  "('d, 'a, 'w) promise \<Rightarrow> ('a \<Rightarrow> 'w \<Rightarrow> 'w \<times> 'b) \<Rightarrow> ('d, 'b, 'w) promise" where
  "then_promise p callback =
     \<lparr>awaits = awaits p,
      onSettle = (\<lambda>response w.
        case onSettle p response w of
          (w1, Fulfilled v) \<Rightarrow> (case callback v w1 of (w2, v') \<Rightarrow> (w2, Fulfilled v'))
        | (w1, Rejected e) \<Rightarrow> (w1, Rejected e))\<rparr>"

text \<open>
  The network calls of a list of promises come back in some order (\<open>order\<close>, indices into
  the list) with the answers the network gives (\<open>net\<close>). The result is the world after
  all of them and the outcomes in the order they happened.
\<close>

fun settleAll ::
  "(request \<Rightarrow> 'd settled) \<Rightarrow> nat list \<Rightarrow> ('d, 'v, 'w) promise list \<Rightarrow> 'w
     \<Rightarrow> 'w \<times> (nat \<times> 'v settled) list" where
  "settleAll net [] ps w = (w, [])"
| "settleAll net (i # order) ps w =
     (if i < length ps
      then (case onSettle (ps ! i) (net (awaits (ps ! i))) w of
              (w1, out) \<Rightarrow>
                (case settleAll net order ps w1 of
                   (w2, outs) \<Rightarrow> (w2, (i, out) # outs)))
      else settleAll net order ps w)"

text \<open>
  \<^verbatim>\<open>Promise.all(promises)\<close> for \<open>n\<close> promises, given the outcomes so far: rejected with
  the first rejection that happened; fulfilled with the values in the order of the array
  once every promise is fulfilled; \<open>None\<close> while it is still pending.
\<close>

fun firstRejection :: "(nat \<times> 'v settled) list \<Rightarrow> string option" where
  "firstRejection [] = None"
| "firstRejection ((i, Rejected e) # outs) = Some e"
| "firstRejection ((i, Fulfilled v) # outs) = firstRejection outs"

fun valueOf :: "nat \<Rightarrow> (nat \<times> 'v settled) list \<Rightarrow> 'v option" where
  "valueOf i [] = None"
| "valueOf i ((j, Fulfilled v) # outs) = (if i = j then Some v else valueOf i outs)"
| "valueOf i ((j, Rejected e) # outs) = valueOf i outs"

fun valuesOf :: "nat list \<Rightarrow> (nat \<times> 'v settled) list \<Rightarrow> 'v list option" where
  "valuesOf [] outs = Some []"
| "valuesOf (i # is) outs =
     (case valueOf i outs of
        None \<Rightarrow> None
      | Some v \<Rightarrow> (case valuesOf is outs of None \<Rightarrow> None | Some vs \<Rightarrow> Some (v # vs)))"

definition Promise_all :: "nat \<Rightarrow> (nat \<times> 'v settled) list \<Rightarrow> 'v list settled option" where
  "Promise_all n outs =
     (case firstRejection outs of
        Some e \<Rightarrow> Some (Rejected e)
      | None \<Rightarrow> (case valuesOf [0..<n] outs of
                   None \<Rightarrow> None
                 | Some vs \<Rightarrow> Some (Fulfilled vs)))"

subsection \<open>Numbers and arrays as strings\<close>

text \<open>
  \<^verbatim>\<open>ids.join(',')\<close> writes each ID in decimal and puts a comma between neighbours.
  IDs are database keys: integers, far below the size at which JavaScript prints a number
  with an exponent.
\<close>

fun digitChar :: "nat \<Rightarrow> char" where
  "digitChar n = ''0123456789'' ! (n mod 10)"

fun natToString :: "nat \<Rightarrow> string" where
  "natToString n = (if n < 10 then [digitChar n] else natToString (n div 10) @ [digitChar n])"

definition numberToString :: "int \<Rightarrow> string" where
  "numberToString i = (if i < 0 then ''-'' @ natToString (nat (- i)) else natToString (nat i))"

fun join :: "string \<Rightarrow> string list \<Rightarrow> string" where
  "join sep [] = []"
| "join sep [x] = x"
| "join sep (x # y # ys) = x @ sep @ join sep (y # ys)"

section \<open>The action creators of the line readings\<close>

definition requestMeterLineReadings :: "int list \<Rightarrow> 't \<Rightarrow> ('t, 'r, 'u) action" where
  "requestMeterLineReadings meterIDs timeInterval =
     RequestMeterLineReadings meterIDs timeInterval"

definition receiveMeterLineReadings :: "int list \<Rightarrow> 't \<Rightarrow> 'r \<Rightarrow> ('t, 'r, 'u) action" where
  "receiveMeterLineReadings meterIDs timeInterval rs =
     ReceiveMeterLineReadings meterIDs timeInterval rs"

definition requestGroupLineReadings :: "int list \<Rightarrow> 't \<Rightarrow> ('t, 'r, 'u) action" where
  "requestGroupLineReadings groupIDs timeInterval =
     RequestGroupLineReadings groupIDs timeInterval"

definition receiveGroupLineReadings :: "int list \<Rightarrow> 't \<Rightarrow> 'r \<Rightarrow> ('t, 'r, 'u) action" where
  "receiveGroupLineReadings groupIDs timeInterval rs =
     ReceiveGroupLineReadings groupIDs timeInterval rs"

definition fetchMeterLineReadings ::
  "('t, 'r, 'u) reducer \<Rightarrow> ('t \<Rightarrow> string) \<Rightarrow> int list \<Rightarrow> 't \<Rightarrow> ('t, 'r, 'u) world
     \<Rightarrow> ('t, 'r, 'u) world \<times> ('r, ('t, 'r, 'u) action, ('t, 'r, 'u) world) promise" where
  "fetchMeterLineReadings reducer toString meterIDs timeInterval w =
     (case dispatch reducer (requestMeterLineReadings meterIDs timeInterval) w of
        (w1, _) \<Rightarrow>
          (let stringifiedIDs = join '','' (map numberToString meterIDs)
           in case axios_get (''/api/readings/line/meters/'' @ stringifiedIDs)
                     [(''timeInterval'', toString timeInterval)] w1 of
                (w2, p) \<Rightarrow>
                  (w2, then_promise p (\<lambda>data.
                         dispatch reducer
                           (receiveMeterLineReadings meterIDs timeInterval data)))))"

definition fetchGroupLineReadings ::
  "('t, 'r, 'u) reducer \<Rightarrow> ('t \<Rightarrow> string) \<Rightarrow> int list \<Rightarrow> 't \<Rightarrow> ('t, 'r, 'u) world
     \<Rightarrow> ('t, 'r, 'u) world \<times> ('r, ('t, 'r, 'u) action, ('t, 'r, 'u) world) promise" where
  "fetchGroupLineReadings reducer toString groupIDs timeInterval w =
     (case dispatch reducer (requestGroupLineReadings groupIDs timeInterval) w of
        (w1, _) \<Rightarrow>
          (let stringifiedIDs = join '','' (map numberToString groupIDs)
           in case axios_get (''/api/readings/line/groups/'' @ stringifiedIDs)
                     [(''timeInterval'', toString timeInterval)] w1 of
                (w2, p) \<Rightarrow>
                  (w2, then_promise p (\<lambda>data.
                         dispatch reducer
                           (receiveGroupLineReadings groupIDs timeInterval data)))))"

text \<open>
  The orchestrator. It reads the state once; both filters run on that snapshot. The value
  returned is \<^verbatim>\<open>Promise.all(promises)\<close>: the list of promises here, whose combination is
  \<open>Promise_all\<close>.
\<close>

definition fetchNeededLineReadings ::
  "('t, 'r, 'u) reducer \<Rightarrow> ('t \<Rightarrow> string) \<Rightarrow> 't \<Rightarrow> ('t, 'r, 'u) world
     \<Rightarrow> ('t, 'r, 'u) world
         \<times> ('r, ('t, 'r, 'u) action, ('t, 'r, 'u) world) promise list" where
  "fetchNeededLineReadings reducer toString timeInterval w =
     (let state = getState w;
          promises = [];
          meterIDsToFetchForLine =
            filter (\<lambda>i. shouldFetchMeterLineReadings toString state i timeInterval)
              (selectedMeters (graph state));
          (w1, promises1) =
            (if length meterIDsToFetchForLine > 0
             then (case fetchMeterLineReadings reducer toString
                          meterIDsToFetchForLine timeInterval w of
                     (w', p) \<Rightarrow> (w', promises @ [p]))
             else (w, promises));
          groupIDsToFetchForLine =
            filter (\<lambda>i. shouldFetchGroupLineReadings toString state i timeInterval)
              (selectedGroups (graph state));
          (w2, promises2) =
            (if length groupIDsToFetchForLine > 0
             then (case fetchGroupLineReadings reducer toString
                          groupIDsToFetchForLine timeInterval w1 of
                     (w', p) \<Rightarrow> (w', promises1 @ [p]))
             else (w1, promises1))
      in (w2, promises2))"

section \<open>The units-details fetcher\<close>

definition requestUnitsDetails :: "('t, 'r, 'u) action" where
  "requestUnitsDetails = RequestUnitsDetails"

definition receiveUnitsDetails :: "'u list \<Rightarrow> ('t, 'r, 'u) action" where
  "receiveUnitsDetails d = ReceiveUnitsDetails d"

text \<open>
  Modelled from the spec: \<^verbatim>\<open>unitsApi.details()\<close> lives in \<^verbatim>\<open>utils/api\<close>, which is not
  among the sources. The specification describes it as a single unparameterized network
  call that lists all unit descriptors.
\<close>

definition unitsApi_details ::
  "('t, 'r, 'u) world
     \<Rightarrow> ('t, 'r, 'u) world \<times> ('u list, 'u list, ('t, 'r, 'u) world) promise" where
  "unitsApi_details w =
     (w\<lparr>trace := trace w @ [Issued UnitsApiDetails]\<rparr>,
      \<lparr>awaits = UnitsApiDetails,
       onSettle = (\<lambda>response w'.
         (w'\<lparr>trace := trace w' @ [Completed UnitsApiDetails (isFulfilled response)]\<rparr>,
          response))\<rparr>)"

text \<open>
  The \<^verbatim>\<open>async\<close> thunk: what follows \<^verbatim>\<open>await\<close> runs when the awaited promise is
  fulfilled; if it is rejected, the promise of the thunk is rejected and the rest is skipped.
\<close>

definition fetchUnitsDetails ::
  "('t, 'r, 'u) reducer \<Rightarrow> ('t, 'r, 'u) world
     \<Rightarrow> ('t, 'r, 'u) world \<times> ('u list, unit, ('t, 'r, 'u) world) promise" where
  "fetchUnitsDetails reducer w =
     (case dispatch reducer requestUnitsDetails w of
        (w1, _) \<Rightarrow>
          (case unitsApi_details w1 of
             (w2, p) \<Rightarrow>
               (w2, then_promise p (\<lambda>unitsDetails w3.
                      case dispatch reducer (receiveUnitsDetails unitsDetails) w3 of
                        (w4, _) \<Rightarrow> (w4, ())))))"

section \<open>Reading a trace\<close>

fun issued :: "('t, 'r, 'u) event list \<Rightarrow> request list" where
  "issued [] = []"
| "issued (Issued r # es) = r # issued es"
| "issued (e # es) = issued es"

fun dispatched :: "('t, 'r, 'u) event list \<Rightarrow> ('t, 'r, 'u) action list" where
  "dispatched [] = []"
| "dispatched (Dispatched a # es) = a # dispatched es"
| "dispatched (e # es) = dispatched es"

text \<open>
  Shorthand for the terms the theorems talk about: the IDs that pass the filter of the
  orchestrator, and the request each batch sends.
\<close>

abbreviation meterIDsToFetch :: "('t \<Rightarrow> string) \<Rightarrow> 'r state \<Rightarrow> 't \<Rightarrow> int list" where
  "meterIDsToFetch toString state timeInterval \<equiv>
     filter (\<lambda>i. shouldFetchMeterLineReadings toString state i timeInterval)
       (selectedMeters (graph state))"

abbreviation groupIDsToFetch :: "('t \<Rightarrow> string) \<Rightarrow> 'r state \<Rightarrow> 't \<Rightarrow> int list" where
  "groupIDsToFetch toString state timeInterval \<equiv>
     filter (\<lambda>i. shouldFetchGroupLineReadings toString state i timeInterval)
       (selectedGroups (graph state))"

abbreviation meterRequest :: "('t \<Rightarrow> string) \<Rightarrow> int list \<Rightarrow> 't \<Rightarrow> request" where
  "meterRequest toString ids timeInterval \<equiv>
     HttpGet (''/api/readings/line/meters/'' @ join '','' (map numberToString ids))
       [(''timeInterval'', toString timeInterval)]"

abbreviation groupRequest :: "('t \<Rightarrow> string) \<Rightarrow> int list \<Rightarrow> 't \<Rightarrow> request" where
  "groupRequest toString ids timeInterval \<equiv>
     HttpGet (''/api/readings/line/groups/'' @ join '','' (map numberToString ids))
       [(''timeInterval'', toString timeInterval)]"

section \<open>Example states\<close>

text \<open>
  Time intervals are their own string form in the examples. In \<open>exampleStore\<close> meters 1, 2
  and 3 and groups 4 and 5 are selected; meter 3 and group 5 are being fetched for the
  interval \<open>X\<close>, nothing else is cached.
\<close>

definition exampleStore :: "string state" where
  "exampleStore =
     \<lparr>readings = \<lparr>line =
        \<lparr>byMeterID = [3 \<mapsto> [''X'' \<mapsto> \<lparr>isFetching = True, entryReadings = None\<rparr>]],
         byGroupID = [5 \<mapsto> [''X'' \<mapsto> \<lparr>isFetching = True, entryReadings = None\<rparr>]]\<rparr>\<rparr>,
      graph = \<lparr>selectedMeters = [1, 2, 3], selectedGroups = [4, 5]\<rparr>\<rparr>"

definition exampleWorld :: "(string, string, string) world" where
  "exampleWorld = \<lparr>store = exampleStore, trace = []\<rparr>"

text \<open>A network on which the group call succeeds and every other call fails.\<close>

definition exampleNet :: "request \<Rightarrow> string settled" where
  "exampleNet r =
     (if r = HttpGet ''/api/readings/line/groups/4'' [(''timeInterval'', ''X'')]
      then Fulfilled ''{}'' else Rejected ''Network Error'')"

text \<open>
  Meters 1, 2 and 3 are selected, no group is; meter 2 has a resolved entry for \<open>X\<close>
  (\<open>isFetching = False\<close>, readings present), meters 1 and 3 have none.
\<close>

definition resolvedWorld :: "(string, string, string) world" where
  "resolvedWorld =
     \<lparr>store = \<lparr>readings = \<lparr>line =
        \<lparr>byMeterID =
           [2 \<mapsto> [''X'' \<mapsto> \<lparr>isFetching = False, entryReadings = Some ''[]''\<rparr>]],
         byGroupID = Map.empty\<rparr>\<rparr>,
        graph = \<lparr>selectedMeters = [1, 2, 3], selectedGroups = []\<rparr>\<rparr>,
      trace = []\<rparr>"

text \<open>Only meter 3 and group 5 are selected, and both are being fetched.\<close>

definition idleWorld :: "(string, string, string) world" where
  "idleWorld =
     \<lparr>store = exampleStore\<lparr>graph := \<lparr>selectedMeters = [3], selectedGroups = [5]\<rparr>\<rparr>,
      trace = []\<rparr>"

section \<open>Unfolding the batches and the orchestrator\<close>

lemmas batch_defs =
  dispatch_def axios_get_def then_promise_def
  requestMeterLineReadings_def receiveMeterLineReadings_def
  requestGroupLineReadings_def receiveGroupLineReadings_def

lemmas example_defs =
  exampleStore_def exampleWorld_def exampleNet_def resolvedWorld_def idleWorld_def
  shouldFetchMeterLineReadings_def shouldFetchGroupLineReadings_def

lemmas run_defs =
  fetchNeededLineReadings_def fetchMeterLineReadings_def fetchGroupLineReadings_def
  getState_def numberToString_def Let_def batch_defs

lemma fetchMeter_world:
  "fst (fetchMeterLineReadings reducer toString ids ti w) =
     w\<lparr>store := reducer (store w) (RequestMeterLineReadings ids ti),
       trace := trace w @ [Dispatched (RequestMeterLineReadings ids ti),
                           Issued (meterRequest toString ids ti)]\<rparr>"
  by (simp add: fetchMeterLineReadings_def batch_defs Let_def)

lemma fetchMeter_awaits:
  "awaits (snd (fetchMeterLineReadings reducer toString ids ti w)) = meterRequest toString ids ti"
  by (simp add: fetchMeterLineReadings_def batch_defs Let_def)

lemma fetchMeter_onSettle:
  "onSettle (snd (fetchMeterLineReadings reducer toString ids ti w)) response w' =
     (case response of
        Fulfilled d \<Rightarrow>
          (w'\<lparr>store := reducer (store w') (ReceiveMeterLineReadings ids ti d),
              trace := trace w' @ [Completed (meterRequest toString ids ti) True,
                                   Dispatched (ReceiveMeterLineReadings ids ti d)]\<rparr>,
           Fulfilled (ReceiveMeterLineReadings ids ti d))
      | Rejected e \<Rightarrow>
          (w'\<lparr>trace := trace w' @ [Completed (meterRequest toString ids ti) False]\<rparr>,
           Rejected e))"
  by (simp add: fetchMeterLineReadings_def batch_defs Let_def split: settled.splits)

lemma fetchGroup_world:
  "fst (fetchGroupLineReadings reducer toString ids ti w) =
     w\<lparr>store := reducer (store w) (RequestGroupLineReadings ids ti),
       trace := trace w @ [Dispatched (RequestGroupLineReadings ids ti),
                           Issued (groupRequest toString ids ti)]\<rparr>"
  by (simp add: fetchGroupLineReadings_def batch_defs Let_def)

lemma fetchGroup_awaits:
  "awaits (snd (fetchGroupLineReadings reducer toString ids ti w)) = groupRequest toString ids ti"
  by (simp add: fetchGroupLineReadings_def batch_defs Let_def)

lemma fetchGroup_onSettle:
  "onSettle (snd (fetchGroupLineReadings reducer toString ids ti w)) response w' =
     (case response of
        Fulfilled d \<Rightarrow>
          (w'\<lparr>store := reducer (store w') (ReceiveGroupLineReadings ids ti d),
              trace := trace w' @ [Completed (groupRequest toString ids ti) True,
                                   Dispatched (ReceiveGroupLineReadings ids ti d)]\<rparr>,
           Fulfilled (ReceiveGroupLineReadings ids ti d))
      | Rejected e \<Rightarrow>
          (w'\<lparr>trace := trace w' @ [Completed (groupRequest toString ids ti) False]\<rparr>,
           Rejected e))"
  by (simp add: fetchGroupLineReadings_def batch_defs Let_def split: settled.splits)

lemma fetchNeeded_cases:
  "fetchNeededLineReadings reducer toString ti w =
     (let ms = meterIDsToFetch toString (store w) ti;
          gs = groupIDsToFetch toString (store w) ti;
          m = fetchMeterLineReadings reducer toString ms ti w;
          w1 = (if ms = [] then w else fst m);
          g = fetchGroupLineReadings reducer toString gs ti w1
      in ((if gs = [] then w1 else fst g),
          (if ms = [] then [] else [snd m]) @ (if gs = [] then [] else [snd g])))"
  by (simp add: fetchNeededLineReadings_def getState_def Let_def split: prod.splits)

lemma issued_append: "issued (xs @ ys) = issued xs @ issued ys"
  by (induction xs rule: issued.induct) simp_all

lemma dispatched_append: "dispatched (xs @ ys) = dispatched xs @ dispatched ys"
  by (induction xs rule: dispatched.induct) simp_all

lemma settleAll_preserves:
  assumes "\<And>p r w. p \<in> set ps \<Longrightarrow> f (fst (onSettle p r w)) = f w"
  shows "f (fst (settleAll net order ps w)) = f w"
proof (induction order arbitrary: w)
  case Nil
  show ?case by simp
next
  case (Cons i order)
  show ?case
  proof (cases "i < length ps")
    case True
    obtain w1 out where s: "onSettle (ps ! i) (net (awaits (ps ! i))) w = (w1, out)"
      by (cases "onSettle (ps ! i) (net (awaits (ps ! i))) w")
    have "f w1 = f w"
      using assms [of "ps ! i" "net (awaits (ps ! i))" w] True s by simp
    moreover have "f (fst (settleAll net order ps w1)) = f w1"
      by (rule Cons.IH)
    ultimately show ?thesis
      using True s by (auto split: prod.splits)
  next
    case False
    then show ?thesis using Cons.IH by simp
  qed
qed

lemma settleAll_extends:
  fixes ps :: "('d, 'v, ('t, 'r, 'u) world) promise list"
  assumes "\<And>p r w. p \<in> set ps \<Longrightarrow>
             \<exists>t. trace (fst (onSettle p r w)) = trace w @ Completed (awaits p) (isFulfilled r) # t"
  shows "\<exists>t. trace (fst (settleAll net order ps w)) = trace w @ t
           \<and> (\<forall>i\<in>set order. i < length ps \<longrightarrow>
                 Completed (awaits (ps ! i)) (isFulfilled (net (awaits (ps ! i)))) \<in> set t)"
proof (induction order arbitrary: w)
  case Nil
  show ?case by simp
next
  case (Cons i order)
  show ?case
  proof (cases "i < length ps")
    case True
    obtain w1 out where s: "onSettle (ps ! i) (net (awaits (ps ! i))) w = (w1, out)"
      by (cases "onSettle (ps ! i) (net (awaits (ps ! i))) w")
    obtain t1 where t1: "trace w1 = trace w @
        Completed (awaits (ps ! i)) (isFulfilled (net (awaits (ps ! i)))) # t1"
      using assms [of "ps ! i" "net (awaits (ps ! i))" w] True s by auto
    obtain t2 where t2: "trace (fst (settleAll net order ps w1)) = trace w1 @ t2"
      and m2: "\<forall>j\<in>set order. j < length ps \<longrightarrow>
                 Completed (awaits (ps ! j)) (isFulfilled (net (awaits (ps ! j)))) \<in> set t2"
      using Cons.IH [of w1] by blast
    have "trace (fst (settleAll net (i # order) ps w)) =
            trace w @ (Completed (awaits (ps ! i)) (isFulfilled (net (awaits (ps ! i)))) # t1 @ t2)"
      using True s t1 t2 by (auto split: prod.splits)
    moreover have "\<forall>j\<in>set (i # order). j < length ps \<longrightarrow>
        Completed (awaits (ps ! j)) (isFulfilled (net (awaits (ps ! j))))
          \<in> set (Completed (awaits (ps ! i)) (isFulfilled (net (awaits (ps ! i)))) # t1 @ t2)"
      using m2 by auto
    ultimately show ?thesis by blast
  next
    case False
    obtain t where "trace (fst (settleAll net order ps w)) = trace w @ t"
      and "\<forall>j\<in>set order. j < length ps \<longrightarrow>
                 Completed (awaits (ps ! j)) (isFulfilled (net (awaits (ps ! j)))) \<in> set t"
      using Cons.IH [of w] by blast
    then show ?thesis using False by auto
  qed
qed

lemma settleAll_outcome:
  assumes "i \<in> set order" and "i < length ps"
    and "\<And>w. snd (onSettle (ps ! i) (net (awaits (ps ! i))) w) = out"
  shows "(i, out) \<in> set (snd (settleAll net order ps w))"
  using assms(1)
proof (induction order arbitrary: w)
  case Nil
  then show ?case by simp
next
  case (Cons j order)
  show ?case
  proof (cases "j < length ps")
    case True
    obtain w1 o1 where s: "onSettle (ps ! j) (net (awaits (ps ! j))) w = (w1, o1)"
      by (cases "onSettle (ps ! j) (net (awaits (ps ! j))) w")
    show ?thesis
    proof (cases "i = j")
      case True
      then have "o1 = out" using assms(3) [of w] s by simp
      then show ?thesis using True s assms(2) by (auto split: prod.splits)
    next
      case False
      then have "i \<in> set order" using Cons.prems by simp
      then have "(i, out) \<in> set (snd (settleAll net order ps w1))" by (rule Cons.IH)
      then show ?thesis using \<open>j < length ps\<close> s by (auto split: prod.splits)
    qed
  next
    case False
    then have "i \<noteq> j" using assms(2) by auto
    then have "i \<in> set order" using Cons.prems by simp
    then have "(i, out) \<in> set (snd (settleAll net order ps w))" by (rule Cons.IH)
    then show ?thesis using False by simp
  qed
qed

lemma firstRejection_Some:
  "(i, Rejected e) \<in> set outs \<Longrightarrow> \<exists>e'. firstRejection outs = Some e'"
  by (induction outs rule: firstRejection.induct) auto

lemma Promise_all_rejected:
  "(i, Rejected e) \<in> set outs \<Longrightarrow> \<exists>e'. Promise_all n outs = Some (Rejected e')"
  using firstRejection_Some [of i e outs] by (auto simp: Promise_all_def)

lemma fetchNeeded_world:
  "fst (fetchNeededLineReadings reducer toString ti w) =
     (let ms = meterIDsToFetch toString (store w) ti;
          gs = groupIDsToFetch toString (store w) ti;
          w1 = (if ms = [] then w else fst (fetchMeterLineReadings reducer toString ms ti w))
      in if gs = [] then w1 else fst (fetchGroupLineReadings reducer toString gs ti w1))"
  by (simp add: fetchNeeded_cases Let_def)

lemma fetchNeeded_promises:
  "snd (fetchNeededLineReadings reducer toString ti w) =
     (let ms = meterIDsToFetch toString (store w) ti;
          gs = groupIDsToFetch toString (store w) ti;
          w1 = (if ms = [] then w else fst (fetchMeterLineReadings reducer toString ms ti w))
      in (if ms = [] then [] else [snd (fetchMeterLineReadings reducer toString ms ti w)])
         @ (if gs = [] then [] else [snd (fetchGroupLineReadings reducer toString gs ti w1)]))"
  by (simp add: fetchNeeded_cases Let_def)

lemma fetchNeeded_trace:
  "trace (fst (fetchNeededLineReadings reducer toString ti w)) =
     trace w
     @ (let ms = meterIDsToFetch toString (store w) ti
        in if ms = [] then []
           else [Dispatched (RequestMeterLineReadings ms ti), Issued (meterRequest toString ms ti)])
     @ (let gs = groupIDsToFetch toString (store w) ti
        in if gs = [] then []
           else [Dispatched (RequestGroupLineReadings gs ti), Issued (groupRequest toString gs ti)])"
  by (simp add: fetchNeeded_world fetchMeter_world fetchGroup_world Let_def)

lemma fetchNeeded_promise_kinds:
  assumes "p \<in> set (snd (fetchNeededLineReadings reducer toString ti w))"
  shows "(\<exists>ids w0. p = snd (fetchMeterLineReadings reducer toString ids ti w0))
       \<or> (\<exists>ids w0. p = snd (fetchGroupLineReadings reducer toString ids ti w0))"
  using assms by (auto simp: fetchNeeded_promises Let_def split: if_splits)

lemma fetchNeeded_onSettle_issued:
  assumes "p \<in> set (snd (fetchNeededLineReadings reducer toString ti w))"
  shows "issued (trace (fst (onSettle p r w'))) = issued (trace w')"
  using fetchNeeded_promise_kinds [OF assms]
  by (auto simp: fetchMeter_onSettle fetchGroup_onSettle issued_append split: settled.splits)

lemma fetchNeeded_onSettle_completes:
  assumes "p \<in> set (snd (fetchNeededLineReadings reducer toString ti w))"
  shows "\<exists>t. trace (fst (onSettle p r w')) = trace w' @ Completed (awaits p) (isFulfilled r) # t"
  using fetchNeeded_promise_kinds [OF assms]
  by (auto simp: fetchMeter_onSettle fetchGroup_onSettle fetchMeter_awaits fetchGroup_awaits
      split: settled.splits)

lemma fetchNeeded_onSettle_rejected:
  assumes "p \<in> set (snd (fetchNeededLineReadings reducer toString ti w))"
  shows "onSettle p (Rejected e) w' =
           (w'\<lparr>trace := trace w' @ [Completed (awaits p) False]\<rparr>, Rejected e)"
  using fetchNeeded_promise_kinds [OF assms]
  by (auto simp: fetchMeter_onSettle fetchGroup_onSettle fetchMeter_awaits fetchGroup_awaits)

section \<open>The cache-lookup predicates\<close>

text \<open>
  C2. For every state, ID and time interval, each cache-lookup predicate returns false
  exactly when the cache holds an entry for the ID under the interval's string form and
  that entry has \<open>isFetching = True\<close>; in particular, when there is no entry for the
  pair it returns true.
\<close>

theorem shouldFetch_false_iff_in_flight:
  "(shouldFetchMeterLineReadings toString state i timeInterval = False) =
     (\<exists>forID e. byMeterID (line (readings state)) i = Some forID
        \<and> forID (toString timeInterval) = Some e \<and> isFetching e = True)
   \<and> (shouldFetchGroupLineReadings toString state i timeInterval = False) =
     (\<exists>forID e. byGroupID (line (readings state)) i = Some forID
        \<and> forID (toString timeInterval) = Some e \<and> isFetching e = True)
   \<and> ((\<forall>forID. byMeterID (line (readings state)) i = Some forID
          \<longrightarrow> forID (toString timeInterval) = None)
        \<longrightarrow> shouldFetchMeterLineReadings toString state i timeInterval = True)
   \<and> ((\<forall>forID. byGroupID (line (readings state)) i = Some forID
          \<longrightarrow> forID (toString timeInterval) = None)
        \<longrightarrow> shouldFetchGroupLineReadings toString state i timeInterval = True)"
  by (auto simp: shouldFetchMeterLineReadings_def shouldFetchGroupLineReadings_def
      split: option.splits)

text \<open>Meter 1 and group 1 have no entry in \<open>exampleStore\<close>: both predicates answer true.\<close>

theorem shouldFetch_false_iff_in_flight_witness:
  "byMeterID (line (readings exampleStore)) 1 = None
   \<and> byGroupID (line (readings exampleStore)) 1 = None
   \<and> shouldFetchMeterLineReadings (\<lambda>t. t) exampleStore 1 ''X'' = True
   \<and> shouldFetchGroupLineReadings (\<lambda>t. t) exampleStore 1 ''X'' = True"
  using shouldFetch_false_iff_in_flight [of "\<lambda>t. t" exampleStore 1 "''X''"]
  by (simp add: exampleStore_def)

text \<open>
  C10. The meter predicate and the group predicate compute the same function of their
  cache slice: if the \<open>byMeterID\<close> mapping of one state equals the \<open>byGroupID\<close> mapping of
  another, they return the same boolean for every ID and interval.
\<close>

theorem meter_and_group_predicates_agree:
  assumes "byMeterID (line (readings s1)) = byGroupID (line (readings s2))"
  shows "shouldFetchMeterLineReadings toString s1 i timeInterval
       = shouldFetchGroupLineReadings toString s2 i timeInterval"
  using assms
  by (simp add: shouldFetchMeterLineReadings_def shouldFetchGroupLineReadings_def)

theorem meter_and_group_predicates_agree_witness:
  "byMeterID (line (readings exampleStore))
     = byGroupID (line (readings
         (exampleStore\<lparr>readings :=
            \<lparr>line = \<lparr>byMeterID = Map.empty,
                     byGroupID = byMeterID (line (readings exampleStore))\<rparr>\<rparr>\<rparr>)))
   \<and> shouldFetchMeterLineReadings (\<lambda>t. t) exampleStore 3 ''X''
     = shouldFetchGroupLineReadings (\<lambda>t. t)
         (exampleStore\<lparr>readings :=
            \<lparr>line = \<lparr>byMeterID = Map.empty,
                     byGroupID = byMeterID (line (readings exampleStore))\<rparr>\<rparr>\<rparr>) 3 ''X''
   \<and> shouldFetchMeterLineReadings (\<lambda>t. t) exampleStore 3 ''X'' = False"
  using meter_and_group_predicates_agree [of exampleStore
      "exampleStore\<lparr>readings :=
         \<lparr>line = \<lparr>byMeterID = Map.empty,
                  byGroupID = byMeterID (line (readings exampleStore))\<rparr>\<rparr>\<rparr>"
      "\<lambda>t. t" 3 "''X''"]
  by (simp add: example_defs)

section \<open>The orchestrator\<close>

text \<open>
  C1. A selected meter or group that already has a resolved entry for the interval
  (\<open>isFetching = False\<close>) is left out of every batched request. The code does otherwise:
  the predicates return \<open>\<not> isFetching\<close>, so a resolved entry counts as missing. With
  meters 1, 2 and 3 selected, meter 2 resolved for \<open>X\<close> and meters 1 and 3 not cached,
  the one request names all three meters.
\<close>

theorem resolved_entry_is_fetched_again:
  "byMeterID (line (readings (store resolvedWorld))) 2
     = Some [''X'' \<mapsto> \<lparr>isFetching = False, entryReadings = Some ''[]''\<rparr>]
   \<and> shouldFetchMeterLineReadings (\<lambda>t. t) (store resolvedWorld) 2 ''X'' = True
   \<and> trace (fst (fetchNeededLineReadings (\<lambda>s a. s) (\<lambda>t. t) ''X'' resolvedWorld)) =
       [Dispatched (RequestMeterLineReadings [1, 2, 3] ''X''),
        Issued (HttpGet ''/api/readings/line/meters/1,2,3'' [(''timeInterval'', ''X'')])]"
  by (simp add: example_defs run_defs)

text \<open>
  C3. One invocation issues at most two network calls: at most one GET to
  \<^verbatim>\<open>/api/readings/line/meters/\<close> followed by the comma-joined meter IDs that need fetching,
  and at most one GET to \<^verbatim>\<open>/api/readings/line/groups/\<close> followed by the comma-joined group
  IDs, each with the interval's string form as the \<^verbatim>\<open>timeInterval\<close> parameter and each
  only if its list of IDs is not empty. The completion of the calls, in any order and with
  any outcome, issues no further call.
\<close>

theorem fetchNeeded_at_most_two_batched_calls:
  assumes "fetchNeededLineReadings reducer toString timeInterval w = (w', ps)"
  shows "issued (drop (length (trace w)) (trace w')) =
           (if meterIDsToFetch toString (store w) timeInterval = [] then []
            else [meterRequest toString
                    (meterIDsToFetch toString (store w) timeInterval) timeInterval])
         @ (if groupIDsToFetch toString (store w) timeInterval = [] then []
            else [groupRequest toString
                    (groupIDsToFetch toString (store w) timeInterval) timeInterval])
       \<and> length (issued (drop (length (trace w)) (trace w'))) \<le> 2
       \<and> issued (trace (fst (settleAll net order ps w''))) = issued (trace w'')"
proof -
  have w': "w' = fst (fetchNeededLineReadings reducer toString timeInterval w)"
    and ps: "ps = snd (fetchNeededLineReadings reducer toString timeInterval w)"
    using assms by simp_all
  have calls: "issued (drop (length (trace w)) (trace w')) =
           (if meterIDsToFetch toString (store w) timeInterval = [] then []
            else [meterRequest toString
                    (meterIDsToFetch toString (store w) timeInterval) timeInterval])
         @ (if groupIDsToFetch toString (store w) timeInterval = [] then []
            else [groupRequest toString
                    (groupIDsToFetch toString (store w) timeInterval) timeInterval])"
    unfolding w' fetchNeeded_trace by (simp add: Let_def)
  have "length (issued (drop (length (trace w)) (trace w'))) \<le> 2"
    unfolding calls by simp
  moreover have "issued (trace (fst (settleAll net order ps w''))) = issued (trace w'')"
    unfolding ps
    by (rule settleAll_preserves [where f = "\<lambda>x. issued (trace x)"])
       (rule fetchNeeded_onSettle_issued)
  ultimately show ?thesis using calls by blast
qed

text \<open>
  In \<open>exampleWorld\<close> meters 1 and 2 and group 4 need fetching: two calls, and none more
  when the group call has succeeded and the meter call has failed.
\<close>

theorem fetchNeeded_at_most_two_batched_calls_witness:
  "issued (drop (length (trace exampleWorld))
      (trace (fst (fetchNeededLineReadings (\<lambda>s a. s) (\<lambda>t. t) ''X'' exampleWorld)))) =
     [HttpGet ''/api/readings/line/meters/1,2'' [(''timeInterval'', ''X'')],
      HttpGet ''/api/readings/line/groups/4'' [(''timeInterval'', ''X'')]]
   \<and> issued (trace (fst (settleAll exampleNet [1, 0]
        (snd (fetchNeededLineReadings (\<lambda>s a. s) (\<lambda>t. t) ''X'' exampleWorld))
        (fst (fetchNeededLineReadings (\<lambda>s a. s) (\<lambda>t. t) ''X'' exampleWorld))))) =
     [HttpGet ''/api/readings/line/meters/1,2'' [(''timeInterval'', ''X'')],
      HttpGet ''/api/readings/line/groups/4'' [(''timeInterval'', ''X'')]]"
proof -
  have run: "fetchNeededLineReadings (\<lambda>s a. s) (\<lambda>t. t) ''X'' exampleWorld =
      (fst (fetchNeededLineReadings (\<lambda>s a. s) (\<lambda>t. t) ''X'' exampleWorld),
       snd (fetchNeededLineReadings (\<lambda>s a. s) (\<lambda>t. t) ''X'' exampleWorld))"
    by simp
  have ms: "meterIDsToFetch (\<lambda>t. t) (store exampleWorld) ''X'' = [1, 2]"
    and gs: "groupIDsToFetch (\<lambda>t. t) (store exampleWorld) ''X'' = [4]"
    by (simp_all add: example_defs)
  have tr: "trace exampleWorld = []"
    by (simp add: exampleWorld_def)
  show ?thesis
    using fetchNeeded_at_most_two_batched_calls [OF run, of exampleNet "[1, 0]"
        "fst (fetchNeededLineReadings (\<lambda>s a. s) (\<lambda>t. t) ''X'' exampleWorld)"]
    unfolding ms gs tr
    by (simp add: numberToString_def)
qed

text \<open>
  C4. For each non-empty list of IDs to fetch, the request action with exactly that list
  and the interval is dispatched right before the network call is issued, in the same
  synchronous run, and so before the call completes, whether it succeeds or fails. The
  events of one invocation followed by the completion of its calls (any outcome \<open>net\<close>,
  any order) begin with the meter request action and the meter call; the group request
  action and the group call follow, with no completion before them; a call that completes
  does so later in the trace. The meter promise is the first of the list, the group promise
  the last.
\<close>

theorem request_started_precedes_call:
  fixes w :: "('t, 'r, 'u) world"
  assumes run: "fetchNeededLineReadings reducer toString timeInterval w = (w', ps)"
    and settle: "settleAll net order ps w' = (w'', outs)"
  shows "(meterIDsToFetch toString (store w) timeInterval \<noteq> [] \<longrightarrow>
            (\<exists>rest. drop (length (trace w)) (trace w'') =
               Dispatched (RequestMeterLineReadings
                 (meterIDsToFetch toString (store w) timeInterval) timeInterval)
               # Issued (meterRequest toString
                   (meterIDsToFetch toString (store w) timeInterval) timeInterval)
               # rest
             \<and> (0 \<in> set order \<longrightarrow>
                  Completed (meterRequest toString
                      (meterIDsToFetch toString (store w) timeInterval) timeInterval)
                    (isFulfilled (net (meterRequest toString
                       (meterIDsToFetch toString (store w) timeInterval) timeInterval)))
                  \<in> set rest)))
       \<and> (groupIDsToFetch toString (store w) timeInterval \<noteq> [] \<longrightarrow>
            (\<exists>pre rest. drop (length (trace w)) (trace w'') =
               pre
               @ Dispatched (RequestGroupLineReadings
                   (groupIDsToFetch toString (store w) timeInterval) timeInterval)
               # Issued (groupRequest toString
                   (groupIDsToFetch toString (store w) timeInterval) timeInterval)
               # rest
             \<and> (\<forall>r b. Completed r b \<notin> set pre)
             \<and> (length ps - 1 \<in> set order \<longrightarrow>
                  Completed (groupRequest toString
                      (groupIDsToFetch toString (store w) timeInterval) timeInterval)
                    (isFulfilled (net (groupRequest toString
                       (groupIDsToFetch toString (store w) timeInterval) timeInterval)))
                  \<in> set rest)))"
proof -
  define ms where "ms = meterIDsToFetch toString (store w) timeInterval"
  define gs where "gs = groupIDsToFetch toString (store w) timeInterval"
  define w1 where
    "w1 = (if ms = [] then w
           else fst (fetchMeterLineReadings reducer toString ms timeInterval w))"
  define sm where "sm = (if ms = [] then []
     else [Dispatched (RequestMeterLineReadings ms timeInterval) :: ('t, 'r, 'u) event,
           Issued (meterRequest toString ms timeInterval)])"
  define sg where "sg = (if gs = [] then []
     else [Dispatched (RequestGroupLineReadings gs timeInterval) :: ('t, 'r, 'u) event,
           Issued (groupRequest toString gs timeInterval)])"
  have w': "w' = fst (fetchNeededLineReadings reducer toString timeInterval w)"
    and ps: "ps = snd (fetchNeededLineReadings reducer toString timeInterval w)"
    using run by simp_all
  have sync: "trace w' = trace w @ sm @ sg"
    unfolding w' fetchNeeded_trace sm_def sg_def ms_def gs_def by (simp add: Let_def)
  have ps_eq: "ps =
      (if ms = [] then []
       else [snd (fetchMeterLineReadings reducer toString ms timeInterval w)])
      @ (if gs = [] then []
         else [snd (fetchGroupLineReadings reducer toString gs timeInterval w1)])"
    unfolding ps fetchNeeded_promises ms_def gs_def w1_def by (simp add: Let_def)
  have "\<exists>t. trace (fst (settleAll net order ps w')) = trace w' @ t
           \<and> (\<forall>i\<in>set order. i < length ps \<longrightarrow>
                 Completed (awaits (ps ! i)) (isFulfilled (net (awaits (ps ! i)))) \<in> set t)"
    unfolding ps by (rule settleAll_extends) (rule fetchNeeded_onSettle_completes)
  then obtain t where t: "trace (fst (settleAll net order ps w')) = trace w' @ t"
    and compl: "\<forall>i\<in>set order. i < length ps \<longrightarrow>
                 Completed (awaits (ps ! i)) (isFulfilled (net (awaits (ps ! i)))) \<in> set t"
    by blast
  have new: "drop (length (trace w)) (trace w'') = sm @ sg @ t"
    using t settle sync by simp
  have meters: "\<exists>rest. drop (length (trace w)) (trace w'') =
               Dispatched (RequestMeterLineReadings ms timeInterval)
               # Issued (meterRequest toString ms timeInterval) # rest
             \<and> (0 \<in> set order \<longrightarrow>
                  Completed (meterRequest toString ms timeInterval)
                    (isFulfilled (net (meterRequest toString ms timeInterval))) \<in> set rest)"
    if "ms \<noteq> []"
  proof -
    have "ps ! 0 = snd (fetchMeterLineReadings reducer toString ms timeInterval w)"
      and "0 < length ps"
      using that ps_eq by simp_all
    then have "0 \<in> set order \<longrightarrow>
        Completed (meterRequest toString ms timeInterval)
          (isFulfilled (net (meterRequest toString ms timeInterval))) \<in> set t"
      using compl by (auto simp: fetchMeter_awaits)
    moreover have "drop (length (trace w)) (trace w'') =
        Dispatched (RequestMeterLineReadings ms timeInterval)
        # Issued (meterRequest toString ms timeInterval) # (sg @ t)"
      using new that by (simp add: sm_def)
    ultimately show ?thesis by auto
  qed
  have groups: "\<exists>pre rest. drop (length (trace w)) (trace w'') =
               pre @ Dispatched (RequestGroupLineReadings gs timeInterval)
               # Issued (groupRequest toString gs timeInterval) # rest
             \<and> (\<forall>r b. Completed r b \<notin> set pre)
             \<and> (length ps - 1 \<in> set order \<longrightarrow>
                  Completed (groupRequest toString gs timeInterval)
                    (isFulfilled (net (groupRequest toString gs timeInterval))) \<in> set rest)"
    if "gs \<noteq> []"
  proof -
    have "ps ! (length ps - 1) =
            snd (fetchGroupLineReadings reducer toString gs timeInterval w1)"
      and "length ps - 1 < length ps"
      using that ps_eq by simp_all
    then have "length ps - 1 \<in> set order \<longrightarrow>
        Completed (groupRequest toString gs timeInterval)
          (isFulfilled (net (groupRequest toString gs timeInterval))) \<in> set t"
      using compl by (auto simp: fetchGroup_awaits)
    moreover have "drop (length (trace w)) (trace w'') =
        sm @ Dispatched (RequestGroupLineReadings gs timeInterval)
        # Issued (groupRequest toString gs timeInterval) # t"
      using new that by (simp add: sg_def)
    moreover have "\<forall>r b. Completed r b \<notin> set sm"
      by (simp add: sm_def)
    ultimately show ?thesis by blast
  qed
  show ?thesis
    using meters groups unfolding ms_def gs_def by blast
qed

text \<open>
  The run of \<open>exampleWorld\<close> in which the group call comes back first and succeeds and
  the meter call comes back second and fails.
\<close>

theorem request_started_precedes_call_witness:
  "meterIDsToFetch (\<lambda>t. t) (store exampleWorld) ''X'' = [1, 2]
   \<and> groupIDsToFetch (\<lambda>t. t) (store exampleWorld) ''X'' = [4]
   \<and> length (snd (fetchNeededLineReadings (\<lambda>s a. s) (\<lambda>t. t) ''X'' exampleWorld)) = 2
   \<and> trace (fst (settleAll exampleNet [1, 0]
        (snd (fetchNeededLineReadings (\<lambda>s a. s) (\<lambda>t. t) ''X'' exampleWorld))
        (fst (fetchNeededLineReadings (\<lambda>s a. s) (\<lambda>t. t) ''X'' exampleWorld)))) =
     [Dispatched (RequestMeterLineReadings [1, 2] ''X''),
      Issued (HttpGet ''/api/readings/line/meters/1,2'' [(''timeInterval'', ''X'')]),
      Dispatched (RequestGroupLineReadings [4] ''X''),
      Issued (HttpGet ''/api/readings/line/groups/4'' [(''timeInterval'', ''X'')]),
      Completed (HttpGet ''/api/readings/line/groups/4'' [(''timeInterval'', ''X'')]) True,
      Dispatched (ReceiveGroupLineReadings [4] ''X'' ''{}''),
      Completed (HttpGet ''/api/readings/line/meters/1,2'' [(''timeInterval'', ''X'')]) False]"
proof -
  have run: "fetchNeededLineReadings (\<lambda>s a. s) (\<lambda>t. t) ''X'' exampleWorld =
      (fst (fetchNeededLineReadings (\<lambda>s a. s) (\<lambda>t. t) ''X'' exampleWorld),
       snd (fetchNeededLineReadings (\<lambda>s a. s) (\<lambda>t. t) ''X'' exampleWorld))"
    by simp
  have settle: "settleAll exampleNet [1, 0]
        (snd (fetchNeededLineReadings (\<lambda>s a. s) (\<lambda>t. t) ''X'' exampleWorld))
        (fst (fetchNeededLineReadings (\<lambda>s a. s) (\<lambda>t. t) ''X'' exampleWorld)) =
      (fst (settleAll exampleNet [1, 0]
        (snd (fetchNeededLineReadings (\<lambda>s a. s) (\<lambda>t. t) ''X'' exampleWorld))
        (fst (fetchNeededLineReadings (\<lambda>s a. s) (\<lambda>t. t) ''X'' exampleWorld))),
       snd (settleAll exampleNet [1, 0]
        (snd (fetchNeededLineReadings (\<lambda>s a. s) (\<lambda>t. t) ''X'' exampleWorld))
        (fst (fetchNeededLineReadings (\<lambda>s a. s) (\<lambda>t. t) ''X'' exampleWorld))))"
    by simp
  have eval: "meterIDsToFetch (\<lambda>t. t) (store exampleWorld) ''X'' = [1, 2]
   \<and> groupIDsToFetch (\<lambda>t. t) (store exampleWorld) ''X'' = [4]
   \<and> length (snd (fetchNeededLineReadings (\<lambda>s a. s) (\<lambda>t. t) ''X'' exampleWorld)) = 2
   \<and> trace (fst (settleAll exampleNet [1, 0]
        (snd (fetchNeededLineReadings (\<lambda>s a. s) (\<lambda>t. t) ''X'' exampleWorld))
        (fst (fetchNeededLineReadings (\<lambda>s a. s) (\<lambda>t. t) ''X'' exampleWorld)))) =
     [Dispatched (RequestMeterLineReadings [1, 2] ''X''),
      Issued (HttpGet ''/api/readings/line/meters/1,2'' [(''timeInterval'', ''X'')]),
      Dispatched (RequestGroupLineReadings [4] ''X''),
      Issued (HttpGet ''/api/readings/line/groups/4'' [(''timeInterval'', ''X'')]),
      Completed (HttpGet ''/api/readings/line/groups/4'' [(''timeInterval'', ''X'')]) True,
      Dispatched (ReceiveGroupLineReadings [4] ''X'' ''{}''),
      Completed (HttpGet ''/api/readings/line/meters/1,2'' [(''timeInterval'', ''X'')]) False]"
    by (simp add: example_defs run_defs)
  show ?thesis
    using request_started_precedes_call [OF run settle] eval by blast
qed

text \<open>
  C6. If both selection lists are empty, or no selected ID needs fetching, the orchestrator
  issues no network call and dispatches no action (the world is returned as it was), the
  list of promises is empty, and the combined promise is fulfilled before any network call
  has come back.
\<close>

theorem fetchNeeded_nothing_needed:
  assumes "(selectedMeters (graph (store w)) = [] \<and> selectedGroups (graph (store w)) = [])
         \<or> (meterIDsToFetch toString (store w) timeInterval = []
              \<and> groupIDsToFetch toString (store w) timeInterval = [])"
  shows "fetchNeededLineReadings reducer toString timeInterval w = (w, [])
       \<and> issued (drop (length (trace w))
            (trace (fst (fetchNeededLineReadings reducer toString timeInterval w)))) = []
       \<and> dispatched (drop (length (trace w))
            (trace (fst (fetchNeededLineReadings reducer toString timeInterval w)))) = []
       \<and> Promise_all
            (length (snd (fetchNeededLineReadings reducer toString timeInterval w))) []
           = Some (Fulfilled [])"
proof -
  have "meterIDsToFetch toString (store w) timeInterval = []
      \<and> groupIDsToFetch toString (store w) timeInterval = []"
    using assms by auto
  then have "fetchNeededLineReadings reducer toString timeInterval w = (w, [])"
    by (simp add: fetchNeeded_cases Let_def)
  then show ?thesis by (simp add: Promise_all_def)
qed

text \<open>In \<open>idleWorld\<close> the selected meter and the selected group are both being fetched.\<close>

theorem fetchNeeded_nothing_needed_witness:
  "meterIDsToFetch (\<lambda>t. t) (store idleWorld) ''X'' = []
   \<and> groupIDsToFetch (\<lambda>t. t) (store idleWorld) ''X'' = []
   \<and> fetchNeededLineReadings (\<lambda>s a. s) (\<lambda>t. t) ''X'' idleWorld = (idleWorld, [])
   \<and> Promise_all
        (length (snd (fetchNeededLineReadings (\<lambda>s a. s) (\<lambda>t. t) ''X'' idleWorld))) []
       = Some (Fulfilled [])"
proof -
  have none: "meterIDsToFetch (\<lambda>t. t) (store idleWorld) ''X'' = []
      \<and> groupIDsToFetch (\<lambda>t. t) (store idleWorld) ''X'' = []"
    by (simp add: example_defs)
  then have "(selectedMeters (graph (store idleWorld)) = []
              \<and> selectedGroups (graph (store idleWorld)) = [])
         \<or> (meterIDsToFetch (\<lambda>t. t) (store idleWorld) ''X'' = []
              \<and> groupIDsToFetch (\<lambda>t. t) (store idleWorld) ''X'' = [])"
    by (rule disjI2)
  from fetchNeeded_nothing_needed [OF this, of "\<lambda>s a. s"] none
  show ?thesis by blast
qed

text \<open>
  C9. The orchestrator only reads the state. The store after an invocation is the store
  before it with the reducer applied to the actions the invocation dispatched, in order, and
  nothing else; under a reducer that ignores them the store is unchanged. The decisions are
  taken on the state read at the start: the trace and the requests awaited are the same
  whatever the reducer does with the dispatched actions. The predicates are functions of the
  state they are given and return a boolean only.
\<close>

theorem fetchNeeded_only_reads_state:
  fixes reducer :: "('t, 'r, 'u) reducer"
  shows "store (fst (fetchNeededLineReadings reducer toString timeInterval w)) =
     foldl reducer (store w)
       (dispatched (drop (length (trace w))
          (trace (fst (fetchNeededLineReadings reducer toString timeInterval w)))))
   \<and> store (fst (fetchNeededLineReadings (\<lambda>s a. s) toString timeInterval w)) = store w
   \<and> trace (fst (fetchNeededLineReadings reducer toString timeInterval w)) =
       trace (fst (fetchNeededLineReadings (\<lambda>s a. s) toString timeInterval w))
   \<and> map awaits (snd (fetchNeededLineReadings reducer toString timeInterval w)) =
       map awaits (snd (fetchNeededLineReadings (\<lambda>s a. s) toString timeInterval w))"
proof -
  have "store (fst (fetchNeededLineReadings r toString timeInterval w)) =
     foldl r (store w)
       (dispatched (drop (length (trace w))
          (trace (fst (fetchNeededLineReadings r toString timeInterval w)))))"
    for r :: "('t, 'r, 'u) reducer"
    unfolding fetchNeeded_trace
    by (simp add: fetchNeeded_world fetchMeter_world fetchGroup_world Let_def)
  from this [of reducer] this [of "\<lambda>s a. s"]
  show ?thesis
    by (simp add: fetchNeeded_trace fetchNeeded_promises fetchMeter_awaits fetchGroup_awaits
        Let_def)
qed

text \<open>
  A reducer that empties the selection on every action: the group batch is still decided
  on the selection read at the start.
\<close>

theorem fetchNeeded_only_reads_state_witness:
  "graph (store (fst (fetchNeededLineReadings
       (\<lambda>s a. s\<lparr>graph := \<lparr>selectedMeters = [], selectedGroups = []\<rparr>\<rparr>)
       (\<lambda>t. t) ''X'' exampleWorld)))
     = \<lparr>selectedMeters = [], selectedGroups = []\<rparr>
   \<and> trace (fst (fetchNeededLineReadings
       (\<lambda>s a. s\<lparr>graph := \<lparr>selectedMeters = [], selectedGroups = []\<rparr>\<rparr>)
       (\<lambda>t. t) ''X'' exampleWorld))
     = [Dispatched (RequestMeterLineReadings [1, 2] ''X''),
        Issued (HttpGet ''/api/readings/line/meters/1,2'' [(''timeInterval'', ''X'')]),
        Dispatched (RequestGroupLineReadings [4] ''X''),
        Issued (HttpGet ''/api/readings/line/groups/4'' [(''timeInterval'', ''X'')])]
   \<and> store (fst (fetchNeededLineReadings (\<lambda>s a. s) (\<lambda>t. t) ''X'' exampleWorld))
     = exampleStore"
  using fetchNeeded_only_reads_state
    [of "\<lambda>s a. s\<lparr>graph := \<lparr>selectedMeters = [], selectedGroups = []\<rparr>\<rparr>"
        "\<lambda>t. t" "''X''" exampleWorld]
  by (simp add: example_defs run_defs)

section \<open>The life of one batch\<close>

text \<open>
  C5. For every batch whose network call succeeds, the receive action dispatched for it
  carries the same IDs and the same interval as the request action dispatched when the
  batch started, together with the payload of the response. For any list of IDs: the only
  action a batch dispatches when it starts is the request action for the list, and when its
  call is fulfilled with \<open>d\<close> the promise dispatches the receive action for the same list,
  the same interval and \<open>d\<close>, and is fulfilled with it.
\<close>

theorem data_received_matches_request_started:
  "dispatched (drop (length (trace w))
       (trace (fst (fetchMeterLineReadings reducer toString ids timeInterval w))))
     = [RequestMeterLineReadings ids timeInterval]
   \<and> onSettle (snd (fetchMeterLineReadings reducer toString ids timeInterval w))
       (Fulfilled d) w' =
       (w'\<lparr>store := reducer (store w') (ReceiveMeterLineReadings ids timeInterval d),
           trace := trace w' @ [Completed (meterRequest toString ids timeInterval) True,
                                Dispatched (ReceiveMeterLineReadings ids timeInterval d)]\<rparr>,
        Fulfilled (ReceiveMeterLineReadings ids timeInterval d))
   \<and> dispatched (drop (length (trace w))
       (trace (fst (fetchGroupLineReadings reducer toString ids timeInterval w))))
     = [RequestGroupLineReadings ids timeInterval]
   \<and> onSettle (snd (fetchGroupLineReadings reducer toString ids timeInterval w))
       (Fulfilled d) w' =
       (w'\<lparr>store := reducer (store w') (ReceiveGroupLineReadings ids timeInterval d),
           trace := trace w' @ [Completed (groupRequest toString ids timeInterval) True,
                                Dispatched (ReceiveGroupLineReadings ids timeInterval d)]\<rparr>,
        Fulfilled (ReceiveGroupLineReadings ids timeInterval d))"
  by (simp add: fetchMeter_world fetchGroup_world fetchMeter_onSettle fetchGroup_onSettle)

theorem data_received_matches_request_started_witness:
  "dispatched (trace (fst (onSettle
       (snd (fetchMeterLineReadings (\<lambda>s a. s) (\<lambda>t. t) [1, 2] ''X'' exampleWorld))
       (Fulfilled ''{}'')
       (fst (fetchMeterLineReadings (\<lambda>s a. s) (\<lambda>t. t) [1, 2] ''X'' exampleWorld)))))
     = [RequestMeterLineReadings [1, 2] ''X'', ReceiveMeterLineReadings [1, 2] ''X'' ''{}'']
   \<and> dispatched (trace (fst (onSettle
       (snd (fetchGroupLineReadings (\<lambda>s a. s) (\<lambda>t. t) [4] ''X'' exampleWorld))
       (Fulfilled ''{}'')
       (fst (fetchGroupLineReadings (\<lambda>s a. s) (\<lambda>t. t) [4] ''X'' exampleWorld)))))
     = [RequestGroupLineReadings [4] ''X'', ReceiveGroupLineReadings [4] ''X'' ''{}'']"
  using data_received_matches_request_started
    [of exampleWorld "\<lambda>s a. s" "\<lambda>t. t" "[1, 2]" "''X''" "''{}''"
        "fst (fetchMeterLineReadings (\<lambda>s a. s) (\<lambda>t. t) [1, 2] ''X'' exampleWorld)"]
    data_received_matches_request_started
    [of exampleWorld "\<lambda>s a. s" "\<lambda>t. t" "[4]" "''X''" "''{}''"
        "fst (fetchGroupLineReadings (\<lambda>s a. s) (\<lambda>t. t) [4] ''X'' exampleWorld)"]
  by (simp add: example_defs run_defs)

text \<open>
  C7. When the network call of a batch is rejected, nothing catches the rejection: the
  promise of the batch is rejected with the same reason, the only event is the failed
  completion (no receive action, no action of any kind, the store untouched), and the
  combined promise of the orchestrator is rejected once that call has come back, whatever
  the other call does. The units-details thunk passes a rejection on in the same way.
\<close>

theorem rejection_propagates_unhandled:
  assumes run: "fetchNeededLineReadings reducer toString timeInterval w = (w', ps)"
    and i: "i < length ps" "i \<in> set order"
    and rej: "net (awaits (ps ! i)) = Rejected e"
  shows "onSettle (ps ! i) (net (awaits (ps ! i))) w2 =
           (w2\<lparr>trace := trace w2 @ [Completed (awaits (ps ! i)) False]\<rparr>, Rejected e)
       \<and> (\<exists>e'. Promise_all (length ps) (snd (settleAll net order ps w')) = Some (Rejected e'))
       \<and> onSettle (snd (fetchUnitsDetails reducer w3)) (Rejected e) w2 =
           (w2\<lparr>trace := trace w2 @ [Completed UnitsApiDetails False]\<rparr>, Rejected e)"
proof -
  have ps: "ps = snd (fetchNeededLineReadings reducer toString timeInterval w)"
    using run by simp
  have mem: "ps ! i \<in> set (snd (fetchNeededLineReadings reducer toString timeInterval w))"
    using i(1) ps by simp
  have one: "onSettle (ps ! i) (net (awaits (ps ! i))) w0 =
           (w0\<lparr>trace := trace w0 @ [Completed (awaits (ps ! i)) False]\<rparr>, Rejected e)" for w0
    unfolding rej by (rule fetchNeeded_onSettle_rejected [OF mem])
  then have "(i, Rejected e) \<in> set (snd (settleAll net order ps w'))"
    using i by (intro settleAll_outcome) simp_all
  then have "\<exists>e'. Promise_all (length ps) (snd (settleAll net order ps w')) = Some (Rejected e')"
    by (rule Promise_all_rejected)
  moreover have "onSettle (snd (fetchUnitsDetails reducer w3)) (Rejected e) w2 =
           (w2\<lparr>trace := trace w2 @ [Completed UnitsApiDetails False]\<rparr>, Rejected e)"
    by (simp add: fetchUnitsDetails_def unitsApi_details_def batch_defs)
  ultimately show ?thesis using one by blast
qed

text \<open>
  On \<open>exampleNet\<close> the meter call of \<open>exampleWorld\<close> fails; the group call, which comes
  back first, succeeds.
\<close>

theorem rejection_propagates_unhandled_witness:
  "0 < length (snd (fetchNeededLineReadings (\<lambda>s a. s) (\<lambda>t. t) ''X'' exampleWorld))
   \<and> (0::nat) \<in> set [1, 0]
   \<and> exampleNet (awaits
        (snd (fetchNeededLineReadings (\<lambda>s a. s) (\<lambda>t. t) ''X'' exampleWorld) ! 0))
       = Rejected ''Network Error''
   \<and> Promise_all (length (snd (fetchNeededLineReadings (\<lambda>s a. s) (\<lambda>t. t) ''X'' exampleWorld)))
       (snd (settleAll exampleNet [1, 0]
          (snd (fetchNeededLineReadings (\<lambda>s a. s) (\<lambda>t. t) ''X'' exampleWorld))
          (fst (fetchNeededLineReadings (\<lambda>s a. s) (\<lambda>t. t) ''X'' exampleWorld))))
       = Some (Rejected ''Network Error'')"
proof -
  have run: "fetchNeededLineReadings (\<lambda>s a. s) (\<lambda>t. t) ''X'' exampleWorld =
      (fst (fetchNeededLineReadings (\<lambda>s a. s) (\<lambda>t. t) ''X'' exampleWorld),
       snd (fetchNeededLineReadings (\<lambda>s a. s) (\<lambda>t. t) ''X'' exampleWorld))"
    by simp
  have len: "0 < length (snd (fetchNeededLineReadings (\<lambda>s a. s) (\<lambda>t. t) ''X'' exampleWorld))"
    by (simp add: example_defs run_defs)
  have ord: "(0::nat) \<in> set [1, 0]"
    by simp
  have rej: "exampleNet (awaits
        (snd (fetchNeededLineReadings (\<lambda>s a. s) (\<lambda>t. t) ''X'' exampleWorld) ! 0))
       = Rejected ''Network Error''"
    by (simp add: example_defs run_defs)
  have all: "Promise_all
       (length (snd (fetchNeededLineReadings (\<lambda>s a. s) (\<lambda>t. t) ''X'' exampleWorld)))
       (snd (settleAll exampleNet [1, 0]
          (snd (fetchNeededLineReadings (\<lambda>s a. s) (\<lambda>t. t) ''X'' exampleWorld))
          (fst (fetchNeededLineReadings (\<lambda>s a. s) (\<lambda>t. t) ''X'' exampleWorld))))
       = Some (Rejected ''Network Error'')"
    by (simp add: example_defs run_defs Promise_all_def)
  show ?thesis
    using rejection_propagates_unhandled
      [where net = exampleNet and i = 0 and order = "[1, 0]", OF run len ord rej]
      len ord rej all
    by blast
qed

section \<open>The units-details fetcher\<close>

text \<open>
  C8. Every invocation of the units-details fetcher, whatever the state, first dispatches
  the request action, then issues exactly one network call, which takes no parameter, and
  when the call succeeds dispatches the receive action with the whole list that came back.
  It reads nothing from the state.
\<close>

theorem fetchUnitsDetails_lifecycle:
  "trace (fst (fetchUnitsDetails reducer w)) =
     trace w @ [Dispatched RequestUnitsDetails, Issued UnitsApiDetails]
   \<and> store (fst (fetchUnitsDetails reducer w)) = reducer (store w) RequestUnitsDetails
   \<and> awaits (snd (fetchUnitsDetails reducer w)) = UnitsApiDetails
   \<and> onSettle (snd (fetchUnitsDetails reducer w)) (Fulfilled ds) w' =
       (w'\<lparr>store := reducer (store w') (ReceiveUnitsDetails ds),
           trace := trace w' @ [Completed UnitsApiDetails True,
                                Dispatched (ReceiveUnitsDetails ds)]\<rparr>,
        Fulfilled ())"
  by (simp add: fetchUnitsDetails_def unitsApi_details_def batch_defs
      requestUnitsDetails_def receiveUnitsDetails_def)

theorem fetchUnitsDetails_lifecycle_witness:
  "trace (fst (onSettle (snd (fetchUnitsDetails (\<lambda>s a. s) idleWorld))
       (Fulfilled [''kWh'', ''litre''])
       (fst (fetchUnitsDetails (\<lambda>s a. s) idleWorld))))
     = [Dispatched RequestUnitsDetails, Issued UnitsApiDetails,
        Completed UnitsApiDetails True,
        Dispatched (ReceiveUnitsDetails [''kWh'', ''litre''])]"
  using fetchUnitsDetails_lifecycle
    [of "\<lambda>s a. s" idleWorld "[''kWh'', ''litre'']"
        "fst (fetchUnitsDetails (\<lambda>s a. s) idleWorld)"]
  by (simp add: idleWorld_def)

end
